theory Spec2Isabelle
  imports Complex_Main
begin

section \<open>The output runtime of \<^verbatim>\<open>mycodo/outputs/base_output.py\<close>\<close>

text \<open>
  The class \<^verbatim>\<open>AbstractOutput\<close> is embedded as a record of its attributes, and its
  methods \<^verbatim>\<open>setup_on_off_output\<close>, \<^verbatim>\<open>output_on_off\<close> and \<^verbatim>\<open>check_triggers\<close> as functions
  that take the object and return the updated object, the value returned (or the exception
  raised) and the calls made to the collaborators, in the order in which they are made.

  Modelling decisions:
  \<^item> A \<^verbatim>\<open>datetime\<close> is a \<^typ>\<open>real\<close> number of seconds on the time line of its clock, a
    \<^verbatim>\<open>timedelta\<close> and a \<^verbatim>\<open>float\<close> amount are \<^typ>\<open>real\<close> seconds; the rounding of
    \<^verbatim>\<open>timedelta\<close> to microseconds and of floats is not modelled.
  \<^item> The three clocks read by the code (\<^verbatim>\<open>datetime.now()\<close>, \<^verbatim>\<open>datetime.utcnow()\<close>,
    \<^verbatim>\<open>time.time()\<close>) and the answers of the driver are the fields of an environment, one
    per call of \<^verbatim>\<open>output_on_off\<close>; each clock has one reading per call. \<^verbatim>\<open>is_on()\<close> is
    read on entry (\<open>is_on\<close>) and again by \<^verbatim>\<open>check_triggers\<close> (\<open>is_on_check\<close>);
    \<open>output_switch_raises\<close> says whether the call of \<^verbatim>\<open>output_switch\<close> raises.
  \<^item> An exception leaves the method with the object as it is at that moment: the result is
    \<^term>\<open>Inl\<close> of the exception, together with the object and the calls made so far.
  \<^item> \<^verbatim>\<open>output_off_until\<close> is \<^verbatim>\<open>None\<close> after \<^verbatim>\<open>__init__\<close>, \<^verbatim>\<open>0\<close> after
    \<^verbatim>\<open>setup_on_off_output\<close> and a \<^verbatim>\<open>datetime\<close> later. The code only tests its truth
    value before comparing it, so both \<^verbatim>\<open>None\<close> and \<^verbatim>\<open>0\<close> are \<^term>\<open>None\<close> here.
  \<^item> \<^verbatim>\<open>OUTPUT_INFORMATION\<close> is \<^verbatim>\<open>None\<close> or a dictionary, of which only the key
    \<^verbatim>\<open>'output_types'\<close> is read.
  \<^item> A message is kept as the name of its format with the arguments of the format.
  \<^item> \<^verbatim>\<open>output_types()\<close> of \<^verbatim>\<open>mycodo.utils.outputs\<close> is not part of the file: the table
    it returns is a parameter, a record of its three lists.
  \<^item> The table \<^verbatim>\<open>Trigger\<close> is the list of its rows at the time of the query.
\<close>

subsection \<open>Data\<close>

datatype state_arg = StateStr string | StateInt int | StateBool bool

datatype duty_cycle = DutyOff | DutyNum real

datatype exn = DriverError | TypeError

record trigger =
  trigger_unique_id :: string
  trigger_name :: string
  trigger_type :: string
  unique_id_1 :: string
  is_activated :: bool
  trigger_output_state :: string
  output_duration :: "real option"
  output_duty_cycle :: "real option"

record output_types_table =
  ot_volume :: "string list"
  ot_pwm :: "string list"
  ot_on_off :: "string list"

record abstract_output =
  unique_id :: string
  output_name :: string
  output_type :: string
  output_force_command :: bool
  output_types :: output_types_table
  OUTPUT_INFORMATION :: "(string \<rightharpoonup> string list) option"
  output_state :: "duty_cycle option"
  output_on_until :: real
  output_off_until :: "real option"
  output_last_duration :: real
  output_on_duration :: bool
  output_off_triggered :: bool
  output_time_turned_on :: "real option"

record environment =
  now :: real
  utcnow :: real
  time_time :: real
  is_on :: bool
  is_on_check :: bool
  is_setup :: bool
  output_switch_raises :: bool
  triggers :: "trigger list"

datatype message =
    EmptyMsg
  | InvalidStateMsg
  | NotSetUpMsg
  | StayOffMsg string string real
  | VolumeMsg string string real
  | DutyCycleMsg string string real
  | AlreadyOnAmountMsg string string real real real real
  | OnWithoutAmountMsg string string real
  | OnForMsg string string real
  | AlreadyOnMsg string string
  | OnAtMsg string string "real option"
  | OffAtMsg string string real
  | TriggerMsg real string string string string string
  | TriggerPwmMsg real string string string string duty_cycle string "real option"

datatype event =
    OutputSwitch string "string option" "real option"
  | WriteInfluxdbValue string string "real option" string nat "real option"
  | CheckTriggers real
  | TriggerAllActions string message

datatype flow = Raise exn | Return int message | Continue message

subsection \<open>\<^verbatim>\<open>setup_on_off_output\<close> (lines 141-149)\<close>

definition setup_on_off_output ::
  "abstract_output \<Rightarrow> real \<Rightarrow> (string \<rightharpoonup> string list) \<Rightarrow> abstract_output" where
  "setup_on_off_output self datetime_now output_information =
     self\<lparr>OUTPUT_INFORMATION := Some output_information,
          output_state := None,
          output_time_turned_on := None,
          output_on_duration := False,
          output_last_duration := 0,
          output_on_until := datetime_now,
          output_off_until := None,
          output_off_triggered := False\<rparr>"

subsection \<open>\<^verbatim>\<open>check_triggers\<close> (lines 415-547)\<close>

definition on_duration_states :: "string list" where
  "on_duration_states =
     [''on_duration_none'', ''on_duration_any'', ''on_duration_none_any'',
      ''on_duration_equal'', ''on_duration_greater_than'',
      ''on_duration_equal_greater_than'', ''on_duration_less_than'',
      ''on_duration_equal_less_than'']"

text \<open>
  The second filter of the ON case (lines 441-479). A comparison with a column that is NULL
  is not true in SQL, so the row is not selected.
\<close>

definition on_duration_filter :: "real \<Rightarrow> trigger \<Rightarrow> bool" where
  "on_duration_filter amount t =
     (let st = trigger_output_state t; d = output_duration t in
        (st = ''on_duration_none'' \<and> amount = 0) \<or>
        (st = ''on_duration_any'' \<and> amount \<noteq> 0) \<or>
        st = ''on_duration_none_any'' \<or>
        (st = ''on_duration_equal'' \<and> d = Some amount) \<or>
        (st = ''on_duration_greater_than'' \<and>
           (case d of None \<Rightarrow> False | Some x \<Rightarrow> amount > x)) \<or>
        (st = ''on_duration_equal_greater_than'' \<and>
           (case d of None \<Rightarrow> False | Some x \<Rightarrow> amount \<ge> x)) \<or>
        (st = ''on_duration_less_than'' \<and>
           (case d of None \<Rightarrow> False | Some x \<Rightarrow> amount < x)) \<or>
        (st = ''on_duration_equal_less_than'' \<and>
           (case d of None \<Rightarrow> False | Some x \<Rightarrow> amount \<le> x)))"

text \<open>\<^verbatim>\<open>unique_id.split('-')[0]\<close>\<close>

definition split_dash_0 :: "string \<Rightarrow> string" where
  "split_dash_0 s = takeWhile (\<lambda>c. c \<noteq> CHR ''-'') s"

text \<open>The query of lines 423-482.\<close>

definition select_trigger_output ::
  "abstract_output \<Rightarrow> environment \<Rightarrow> real \<Rightarrow> trigger list" where
  "select_trigger_output self env amount =
     (let trigger_output = filter (\<lambda>t. trigger_type t = ''trigger_output'') (triggers env);
          trigger_output = filter (\<lambda>t. unique_id_1 t = unique_id self) trigger_output;
          trigger_output = filter is_activated trigger_output
      in if is_on_check env
         then filter (on_duration_filter amount)
                (filter (\<lambda>t. trigger_output_state t \<in> set on_duration_states) trigger_output)
         else filter (\<lambda>t. trigger_output_state t = ''off'') trigger_output)"

definition trigger_output_action :: "abstract_output \<Rightarrow> environment \<Rightarrow> trigger \<Rightarrow> event" where
  "trigger_output_action self env each_trigger =
     TriggerAllActions (trigger_unique_id each_trigger)
       (TriggerMsg (time_time env) (split_dash_0 (trigger_unique_id each_trigger))
          (trigger_name each_trigger) (unique_id self) (trigger_name each_trigger)
          (trigger_output_state each_trigger))"

text \<open>
  The condition of lines 513-529, with Python's order of evaluation: \<^verbatim>\<open>>\<close> and \<^verbatim>\<open><\<close>
  between a number and \<^verbatim>\<open>None\<close> raise \<^verbatim>\<open>TypeError\<close>, \<^verbatim>\<open>==\<close> and \<^verbatim>\<open>!=\<close> do not.
\<close>

definition pwm_trigger_trigger :: "duty_cycle \<Rightarrow> trigger \<Rightarrow> exn + bool" where
  "pwm_trigger_trigger dc each_trigger =
     (let st = trigger_output_state each_trigger; th = output_duty_cycle each_trigger in
      case dc of
        DutyOff \<Rightarrow>
          Inr ((st = ''equal'' \<and> th = Some 0) \<or> (st = ''below'' \<and> th \<noteq> Some 0))
      | DutyNum v \<Rightarrow>
          if st = ''above'' then
            (case th of None \<Rightarrow> Inl TypeError | Some x \<Rightarrow> Inr (v > x))
          else if st = ''below'' then
            (case th of None \<Rightarrow> Inl TypeError | Some x \<Rightarrow> Inr (v < x))
          else Inr (st = ''equal'' \<and> th = Some v))"

definition trigger_pwm_action ::
  "abstract_output \<Rightarrow> environment \<Rightarrow> duty_cycle \<Rightarrow> trigger \<Rightarrow> event" where
  "trigger_pwm_action self env dc each_trigger =
     TriggerAllActions (trigger_unique_id each_trigger)
       (TriggerPwmMsg (time_time env) (split_dash_0 (trigger_unique_id each_trigger))
          (trigger_name each_trigger) (unique_id self) (trigger_name each_trigger)
          dc (trigger_output_state each_trigger) (output_duty_cycle each_trigger))"

text \<open>
  The loop of lines 509-547. \<^verbatim>\<open>self.output_state\<close> is the attribute that \<^verbatim>\<open>__init__\<close> and
  \<^verbatim>\<open>setup_on_off_output\<close> set to \<^verbatim>\<open>None\<close>: calling it raises \<^verbatim>\<open>TypeError\<close>. \<^term>\<open>Some dc\<close> stands
  for a callable, bound by a subclass, that returns \<^term>\<open>dc\<close>.
\<close>

fun pwm_loop ::
  "abstract_output \<Rightarrow> environment \<Rightarrow> trigger list \<Rightarrow> (exn + unit) \<times> event list" where
  "pwm_loop self env [] = (Inr (), [])"
| "pwm_loop self env (each_trigger # rest) =
     (case output_state self of
        None \<Rightarrow> (Inl TypeError, [])
      | Some dc \<Rightarrow>
          (case pwm_trigger_trigger dc each_trigger of
             Inl e \<Rightarrow> (Inl e, [])
           | Inr trigger_trigger \<Rightarrow>
               (let evs = (if trigger_trigger
                           then [trigger_pwm_action self env dc each_trigger] else [])
                in case pwm_loop self env rest of (r, evs') \<Rightarrow> (r, evs @ evs'))))"

definition select_trigger_output_pwm :: "abstract_output \<Rightarrow> environment \<Rightarrow> trigger list" where
  "select_trigger_output_pwm self env =
     (let trigger_output_pwm =
            filter (\<lambda>t. trigger_type t = ''trigger_output_pwm'') (triggers env);
          trigger_output_pwm =
            filter (\<lambda>t. unique_id_1 t = unique_id self) trigger_output_pwm
      in filter is_activated trigger_output_pwm)"

definition check_triggers ::
  "abstract_output \<Rightarrow> environment \<Rightarrow> real \<Rightarrow> (exn + unit) \<times> event list" where
  "check_triggers self env amount =
     (let dispatched = map (trigger_output_action self env) (select_trigger_output self env amount)
      in case pwm_loop self env (select_trigger_output_pwm self env) of
           (r, evs) \<Rightarrow> (r, dispatched @ evs))"

subsection \<open>\<^verbatim>\<open>output_on_off\<close> (lines 156-413)\<close>

text \<open>\<^verbatim>\<open>state in ['on', 1, True]\<close> and \<^verbatim>\<open>state in ['off', 0, False]\<close> (Python's \<^verbatim>\<open>==\<close>).\<close>

definition state_in_on :: "state_arg \<Rightarrow> bool" where
  "state_in_on state =
     (case state of StateStr s \<Rightarrow> s = ''on'' | StateInt n \<Rightarrow> n = 1 | StateBool b \<Rightarrow> b)"

definition state_in_off :: "state_arg \<Rightarrow> bool" where
  "state_in_off state =
     (case state of StateStr s \<Rightarrow> s = ''off'' | StateInt n \<Rightarrow> n = 0 | StateBool b \<Rightarrow> \<not> b)"

text \<open>
  Lines 212-228: the check of \<^verbatim>\<open>output_off_until\<close>. \<^term>\<open>None\<close> is "go on"; the test
  \<^verbatim>\<open>'output_types' in self.OUTPUT_INFORMATION\<close> raises \<^verbatim>\<open>TypeError\<close> when the attribute is
  still \<^verbatim>\<open>None\<close>.
\<close>

definition off_until_check ::
  "abstract_output \<Rightarrow> environment \<Rightarrow> string option \<Rightarrow> flow option" where
  "off_until_check self env req_output_type =
     (if req_output_type = Some ''on_off'' then
        (case OUTPUT_INFORMATION self of
           None \<Rightarrow> Some (Raise TypeError)
         | Some info \<Rightarrow>
             if info ''output_types'' \<noteq> None \<and> \<not> is_on env then
               (case output_off_until self of
                  None \<Rightarrow> None
                | Some off_until \<Rightarrow>
                    if off_until > now env
                    then Some (Return 1 (StayOffMsg (unique_id self) (output_name self)
                                           (off_until - now env)))
                    else None)
             else None)
      else None)"

text \<open>Lines 252-330: on for a duration.\<close>

definition on_for_duration ::
  "abstract_output \<Rightarrow> environment \<Rightarrow> real \<Rightarrow> real \<Rightarrow> flow \<times> abstract_output \<times> event list" where
  "on_for_duration self0 env amount min_off =
     (let current_time = now env;
          self = (if min_off \<noteq> 0
                  then self0\<lparr>output_off_until := Some (current_time + (abs amount + min_off))\<rparr>
                  else self0)
      in if is_on env \<and> output_on_duration self then
           (let remaining_time = (if output_on_until self > current_time
                                  then output_on_until self - current_time else 0);
                time_on = abs (output_last_duration self) - remaining_time;
                msg = AlreadyOnAmountMsg (unique_id self) (output_name self)
                        (abs (output_last_duration self)) remaining_time time_on (abs amount);
                self' = self\<lparr>output_on_until := current_time + abs amount,
                             output_last_duration := amount\<rparr>;
                write_db =
                  (if time_on > 0 then
                     (let duration_on = (if output_last_duration self' < 0
                                         then - time_on else time_on);
                          timestamp = utcnow env - abs duration_on
                      in [WriteInfluxdbValue (unique_id self') ''s'' (Some duration_on)
                            ''duration_time'' 0 (Some timestamp)])
                   else [])
            in (Return 0 msg, self', write_db))
         else if is_on env \<and> \<not> output_on_duration self then
           (Return 0 (OnWithoutAmountMsg (unique_id self) (output_name self) (abs amount)),
            self\<lparr>output_on_duration := True,
                 output_on_until := current_time + abs amount,
                 output_last_duration := amount\<rparr>,
            [])
         else
           (let msg = OnForMsg (unique_id self) (output_name self) (abs amount);
                sw = OutputSwitch ''on'' (Some ''sec'') (Some amount)
            in if output_switch_raises env then (Raise DriverError, self, [sw])
               else (Continue msg,
                     self\<lparr>output_on_until := current_time + abs amount,
                          output_last_duration := amount,
                          output_on_duration := True\<rparr>,
                     [sw])))"

text \<open>Lines 338-356: on without a duration.\<close>

definition on_no_duration ::
  "abstract_output \<Rightarrow> environment \<Rightarrow> flow \<times> abstract_output \<times> event list" where
  "on_no_duration self0 env =
     (if is_on env \<and> \<not> output_force_command self0 then
        (Return 1 (AlreadyOnMsg (unique_id self0) (output_name self0)), self0, [])
      else
        (let self = (if output_time_turned_on self0 = None
                     then self0\<lparr>output_time_turned_on := Some (now env)\<rparr> else self0);
             msg = OnAtMsg (unique_id self) (output_name self) (output_time_turned_on self);
             sw = OutputSwitch ''on'' (Some ''sec'') None
         in if output_switch_raises env then (Raise DriverError, self, [sw])
            else (Continue msg, self, [sw])))"

text \<open>Lines 209-356: the branch \<^verbatim>\<open>state == 'on'\<close>.\<close>

definition turn_on ::
  "abstract_output \<Rightarrow> environment \<Rightarrow> string option \<Rightarrow> real \<Rightarrow> real
     \<Rightarrow> flow \<times> abstract_output \<times> event list" where
  "turn_on self env req_output_type amount min_off =
     (case off_until_check self env req_output_type of
        Some fl \<Rightarrow> (fl, self, [])
      | None \<Rightarrow>
          if req_output_type = Some ''vol'' \<and>
             output_type self \<in> set (ot_volume (output_types self)) then
            (let sw = OutputSwitch ''on'' (Some ''vol'') (Some amount)
             in if output_switch_raises env then (Raise DriverError, self, [sw])
                else (Continue (VolumeMsg (unique_id self) (output_name self) amount),
                      self, [sw]))
          else if req_output_type = Some ''pwm'' \<and>
                  output_type self \<in> set (ot_pwm (output_types self)) then
            (let sw = OutputSwitch ''on'' (Some ''pwm'') (Some amount)
             in if output_switch_raises env then (Raise DriverError, self, [sw])
                else (Continue (DutyCycleMsg (unique_id self) (output_name self) amount),
                      self, [sw]))
          else if (req_output_type = Some ''sec'' \<or> req_output_type = None) \<and>
                  output_type self \<in> set (ot_on_off (output_types self)) \<and>
                  amount \<noteq> 0 then
            on_for_duration self env amount min_off
          else
            (case OUTPUT_INFORMATION self of
               None \<Rightarrow> (Raise TypeError, self, [])
             | Some info \<Rightarrow>
                 if (case info ''output_types'' of
                       None \<Rightarrow> False
                     | Some l \<Rightarrow> ''on_off'' \<in> set l) \<and>
                    amount = 0 \<and>
                    (req_output_type = Some ''sec'' \<or> req_output_type = None)
                 then on_no_duration self env
                 else (Continue EmptyMsg, self, [])))"

text \<open>
  Lines 361-408: the branch \<^verbatim>\<open>state == 'off'\<close>. \<^verbatim>\<open>duration_sec\<close> and \<^verbatim>\<open>timestamp\<close> start as
  \<^verbatim>\<open>None\<close> and are assigned by the two \<^verbatim>\<open>if\<close> statements in turn.
\<close>

definition turn_off ::
  "abstract_output \<Rightarrow> environment \<Rightarrow> string option
     \<Rightarrow> flow \<times> abstract_output \<times> event list" where
  "turn_off self env req_output_type =
     (let current_time = now env;
          sw = OutputSwitch ''off'' req_output_type None
      in if output_switch_raises env then (Raise DriverError, self, [sw])
         else
           (let msg = OffAtMsg (unique_id self) (output_name self) (time_time env);
                (self2, write_db) =
                  (if output_time_turned_on self \<noteq> None \<or> output_on_duration self then
                     (let (self1, duration_sec, timestamp) =
                            (if output_on_duration self then
                               (let remaining_time =
                                      (if output_on_until self > current_time
                                       then output_on_until self - current_time else 0);
                                    duration_sec = abs (output_last_duration self) - remaining_time;
                                    timestamp = utcnow env - duration_sec;
                                    duration_sec = (if output_last_duration self < 0
                                                    then - duration_sec else duration_sec)
                                in (self\<lparr>output_on_duration := False,
                                         output_on_until := current_time\<rparr>,
                                    Some duration_sec, Some timestamp))
                             else (self, None, None));
                          (self2, duration_sec, timestamp) =
                            (case output_time_turned_on self1 of
                               Some turned_on \<Rightarrow>
                                 (let duration_sec = current_time - turned_on;
                                      timestamp = utcnow env - duration_sec
                                  in (self1\<lparr>output_time_turned_on := None\<rparr>,
                                      Some duration_sec, Some timestamp))
                             | None \<Rightarrow> (self1, duration_sec, timestamp))
                      in (self2, [WriteInfluxdbValue (unique_id self2) ''s'' duration_sec
                                    ''duration_time'' 0 timestamp]))
                   else (self, []))
            in (Continue msg, self2\<lparr>output_off_triggered := False\<rparr>, sw # write_db)))"

text \<open>
  The result of the method is the exception raised or the pair returned, the object as the
  call leaves it, and the calls made: \<^term>\<open>OutputSwitch\<close> for \<^verbatim>\<open>self.output_switch\<close>,
  \<^term>\<open>WriteInfluxdbValue\<close> for a started \<^verbatim>\<open>write_influxdb_value\<close> thread,
  \<^term>\<open>CheckTriggers\<close> for \<^verbatim>\<open>self.check_triggers\<close>, followed by the
  \<^term>\<open>TriggerAllActions\<close> that it makes.

  Lines 410-413 are reached when the branch taken has neither raised nor returned.
\<close>

type_synonym outcome = "(exn + int \<times> message) \<times> abstract_output \<times> event list"

definition triggers_and_return ::
  "flow \<times> abstract_output \<times> event list \<Rightarrow> environment \<Rightarrow> real \<Rightarrow> bool \<Rightarrow> outcome" where
  "triggers_and_return branch env amount trigger_conditionals =
     (case branch of
        (Raise e, self', evs) \<Rightarrow> (Inl e, self', evs)
      | (Return code msg, self', evs) \<Rightarrow> (Inr (code, msg), self', evs)
      | (Continue msg, self', evs) \<Rightarrow>
          if trigger_conditionals then
            (case check_triggers self' env amount of
               (Inl e, tevs) \<Rightarrow> (Inl e, self', evs @ CheckTriggers amount # tevs)
             | (Inr u, tevs) \<Rightarrow> (Inr (0, msg), self', evs @ CheckTriggers amount # tevs))
          else (Inr (0, msg), self', evs))"

definition output_on_off ::
  "abstract_output \<Rightarrow> environment \<Rightarrow> state_arg \<Rightarrow> string option \<Rightarrow> real option \<Rightarrow> real \<Rightarrow> bool
     \<Rightarrow> outcome" where
  "output_on_off self env state req_output_type amount0 min_off trigger_conditionals =
     (if state_in_on state \<or> state_in_off state then
        (let state' = (if state_in_on state then ''on'' else ''off'');
             amount = (case amount0 of None \<Rightarrow> 0 | Some a \<Rightarrow> a)
         in if is_setup env then
              triggers_and_return
                (if state' = ''on'' then turn_on self env req_output_type amount min_off
                 else turn_off self env req_output_type)
                env amount trigger_conditionals
            else (Inr (1, NotSetUpMsg), self, []))
      else (Inr (1, InvalidStateMsg), self, []))"

subsection \<open>Sequences of calls\<close>

record call =
  call_env :: environment
  call_state :: state_arg
  call_output_type :: "string option"
  call_amount :: "real option"
  call_min_off :: real
  call_trigger_conditionals :: bool

definition do_call ::
  "abstract_output \<Rightarrow> call \<Rightarrow> outcome" where
  "do_call self c =
     output_on_off self (call_env c) (call_state c) (call_output_type c) (call_amount c)
       (call_min_off c) (call_trigger_conditionals c)"

text \<open>
  The object after a sequence of calls; a call that raises leaves the object as it was when
  the exception left the method.
\<close>

fun run :: "abstract_output \<Rightarrow> call list \<Rightarrow> abstract_output" where
  "run self [] = self"
| "run self (c # cs) = run (fst (snd (do_call self c))) cs"

subsection \<open>Observations on the calls made\<close>

definition is_output_switch :: "event \<Rightarrow> bool" where
  "is_output_switch e = (case e of OutputSwitch st ot a \<Rightarrow> True | _ \<Rightarrow> False)"

definition is_write_influxdb :: "event \<Rightarrow> bool" where
  "is_write_influxdb e = (case e of WriteInfluxdbValue u un v m c ts \<Rightarrow> True | _ \<Rightarrow> False)"

definition is_check_triggers :: "event \<Rightarrow> bool" where
  "is_check_triggers e = (case e of CheckTriggers a \<Rightarrow> True | _ \<Rightarrow> False)"

text \<open>The calls of \<^verbatim>\<open>trigger_all_actions\<close> for the rule with a given identifier.\<close>

definition dispatches_of :: "string \<Rightarrow> event list \<Rightarrow> event list" where
  "dispatches_of rule_id evs =
     filter (\<lambda>e. case e of TriggerAllActions i m \<Rightarrow> i = rule_id | _ \<Rightarrow> False) evs"

text \<open>
  The time the output has been on in its timed period, as lines 258-263 and 378-381
  compute it.
\<close>

definition elapsed_on :: "abstract_output \<Rightarrow> real \<Rightarrow> real" where
  "elapsed_on self current_time =
     abs (output_last_duration self) -
       (if output_on_until self > current_time then output_on_until self - current_time else 0)"

text \<open>The condition of lines 249-251, under which the request is one for a duration.\<close>

definition duration_requested :: "abstract_output \<Rightarrow> string option \<Rightarrow> real \<Rightarrow> bool" where
  "duration_requested self req_output_type amount =
     ((req_output_type = Some ''sec'' \<or> req_output_type = None) \<and>
      output_type self \<in> set (ot_on_off (output_types self)) \<and> amount \<noteq> 0)"

text \<open>The conditions of lines 231 and 240: a volume, a duty cycle is requested.\<close>

definition volume_requested :: "abstract_output \<Rightarrow> string option \<Rightarrow> bool" where
  "volume_requested self req_output_type =
     (req_output_type = Some ''vol'' \<and> output_type self \<in> set (ot_volume (output_types self)))"

definition pwm_requested :: "abstract_output \<Rightarrow> string option \<Rightarrow> bool" where
  "pwm_requested self req_output_type =
     (req_output_type = Some ''pwm'' \<and> output_type self \<in> set (ot_pwm (output_types self)))"

text \<open>
  The condition of lines 333-336, for an object whose \<^verbatim>\<open>OUTPUT_INFORMATION\<close> is the
  dictionary \<open>info\<close>.
\<close>

definition on_requested :: "(string \<rightharpoonup> string list) \<Rightarrow> string option \<Rightarrow> real \<Rightarrow> bool" where
  "on_requested info req_output_type amount =
     ((case info ''output_types'' of None \<Rightarrow> False | Some l \<Rightarrow> ''on_off'' \<in> set l) \<and>
      amount = 0 \<and> (req_output_type = Some ''sec'' \<or> req_output_type = None))"

text \<open>\<^verbatim>\<open>if amount is None: amount = 0\<close> (lines 195-196).\<close>

definition amount_or_0 :: "real option \<Rightarrow> real" where
  "amount_or_0 amount0 = (case amount0 of None \<Rightarrow> 0 | Some a \<Rightarrow> a)"




text \<open>
  What the branch \<^verbatim>\<open>state == 'on'\<close> can do: for a timed request on an output that is on,
  and otherwise, where the one call of the driver raises or not.
\<close>

definition branch_shape ::
  "bool \<Rightarrow> bool \<Rightarrow> flow \<times> abstract_output \<times> event list \<Rightarrow> bool" where
  "branch_shape timed_on raises br =
     (if timed_on
      then (\<exists>m. fst br = Return 0 m) \<and> filter is_check_triggers (snd (snd br)) = [] \<and>
           filter is_output_switch (snd (snd br)) = []
      else ((fst br = Raise TypeError \<or> (\<exists>m. fst br = Return 1 m) \<or> fst br = Continue EmptyMsg)
              \<and> snd (snd br) = []) \<or>
           ((if raises then fst br = Raise DriverError else (\<exists>m. fst br = Continue m)) \<and>
              (\<exists>a b. snd (snd br) = [OutputSwitch ''on'' a b])))"

subsection \<open>A relay, for concrete runs\<close>

definition relay_types :: output_types_table where
  "relay_types =
     \<lparr>ot_volume = [''peristaltic_pump''], ot_pwm = [''pwm''], ot_on_off = [''wired'']\<rparr>"

definition relay_init :: abstract_output where
  "relay_init =
     \<lparr>unique_id = ''0a1b-2c3d'', output_name = ''relay'', output_type = ''wired'',
      output_force_command = False, output_types = relay_types,
      OUTPUT_INFORMATION = None, output_state = None, output_on_until = 0,
      output_off_until = None, output_last_duration = 0, output_on_duration = False,
      output_off_triggered = False, output_time_turned_on = None\<rparr>"

definition relay :: abstract_output where
  "relay = setup_on_off_output relay_init 0 [''output_types'' \<mapsto> [''on_off'']]"

definition relay_locked :: abstract_output where
  "relay_locked =
     relay\<lparr>output_on_until := 20, output_off_until := Some 80, output_last_duration := 20,
           output_on_duration := True, output_off_triggered := True\<rparr>"

text \<open>The relay after a timed ON request of 20 seconds at time 0.\<close>

definition relay_on_20 :: abstract_output where
  "relay_on_20 =
     relay\<lparr>output_on_until := 20, output_last_duration := 20, output_on_duration := True\<rparr>"

text \<open>The relay after an ON request without a duration at time 0.\<close>

definition relay_on_indefinite :: abstract_output where
  "relay_on_indefinite = relay\<lparr>output_time_turned_on := Some 0\<rparr>"

text \<open>The relay after a timed ON request of -20 seconds (a reverse run) at time 0.\<close>

definition relay_reverse_20 :: abstract_output where
  "relay_reverse_20 =
     relay\<lparr>output_on_until := 20, output_last_duration := - 20, output_on_duration := True\<rparr>"

text \<open>
  The relay after a timed ON request of 5 seconds with \<^verbatim>\<open>min_off=60\<close> at time 0 and an OFF
  request at time 5.
\<close>

definition relay_after_min_off :: abstract_output where
  "relay_after_min_off =
     relay\<lparr>output_on_until := 5, output_off_until := Some 65, output_last_duration := 5\<rparr>"

text \<open>
  The relay after an ON request without a duration at time 0 and a timed ON request of 10
  seconds at time 2.
\<close>

definition relay_both :: abstract_output where
  "relay_both =
     relay\<lparr>output_on_until := 12, output_last_duration := 10, output_on_duration := True,
           output_time_turned_on := Some 0\<rparr>"

text \<open>
  The relay after a timed ON request of 5 seconds at time 0 and, the driver reporting it off
  again, an ON request without a duration at time 10.
\<close>

definition relay_expired_on :: abstract_output where
  "relay_expired_on =
     relay\<lparr>output_on_until := 5, output_last_duration := 5, output_on_duration := True,
           output_time_turned_on := Some 10\<rparr>"

text \<open>
  An environment at local time \<open>t\<close> (UTC is one hour behind), with the answers of
  \<^verbatim>\<open>is_on()\<close> before and after the request, a driver that works and no trigger.
\<close>

definition env_at :: "real \<Rightarrow> bool \<Rightarrow> bool \<Rightarrow> environment" where
  "env_at t on_before on_after =
     \<lparr>now = t, utcnow = t - 3600, time_time = t, is_on = on_before, is_on_check = on_after,
      is_setup = True, output_switch_raises = False, triggers = []\<rparr>"

text \<open>The same environment with a driver whose \<^verbatim>\<open>output_switch\<close> raises.\<close>

definition env_driver_fails :: "real \<Rightarrow> bool \<Rightarrow> environment" where
  "env_driver_fails t on_before = (env_at t on_before on_before)\<lparr>output_switch_raises := True\<rparr>"

text \<open>
  A rule of the table \<^verbatim>\<open>Trigger\<close> bound to the relay, for durations above 15 seconds, and an
  environment whose table holds it, with the relay reported on.
\<close>

definition rule_above_15 :: trigger where
  "rule_above_15 =
     \<lparr>trigger_unique_id = ''7e8f-9a0b'', trigger_name = ''long run'',
      trigger_type = ''trigger_output'', unique_id_1 = ''0a1b-2c3d'', is_activated = True,
      trigger_output_state = ''on_duration_greater_than'', output_duration = Some 15,
      output_duty_cycle = None\<rparr>"

definition env_rule :: environment where
  "env_rule = (env_at 0 False True)\<lparr>triggers := [rule_above_15]\<rparr>"

definition request ::
  "environment \<Rightarrow> string \<Rightarrow> string option \<Rightarrow> real option \<Rightarrow> real \<Rightarrow> call" where
  "request env st ot a m =
     \<lparr>call_env = env, call_state = StateStr st, call_output_type = ot, call_amount = a,
      call_min_off = m, call_trigger_conditionals = True\<rparr>"

section \<open>Properties\<close>

lemmas on_off_defs =
  output_on_off_def turn_on_def turn_off_def off_until_check_def on_for_duration_def
  on_no_duration_def triggers_and_return_def check_triggers_def select_trigger_output_def
  select_trigger_output_pwm_def

lemmas relay_defs =
  relay_def relay_locked_def relay_on_20_def relay_reverse_20_def relay_after_min_off_def
  relay_both_def relay_expired_on_def relay_on_indefinite_def relay_init_def relay_types_def env_at_def env_driver_fails_def
  env_rule_def rule_above_15_def request_def setup_on_off_output_def
  do_call_def state_in_on_def state_in_off_def

lemma state_in_off_not_on: "state_in_off state \<Longrightarrow> \<not> state_in_on state"
  by (cases state) (auto simp: state_in_on_def state_in_off_def)

subsection \<open>Auxiliary facts\<close>

lemma pwm_loop_events: "e \<in> set (snd (pwm_loop self env ts)) \<Longrightarrow>
   \<exists>t \<in> set ts. \<exists>m. e = TriggerAllActions (trigger_unique_id t) m"
proof (induction ts arbitrary: e)
  case Nil
  then show ?case by simp
next
  case (Cons t ts)
  then show ?case
    by (auto simp: trigger_pwm_action_def Let_def split: option.splits sum.splits prod.splits if_splits)
qed

lemma check_triggers_events:
  assumes "e \<in> set (snd (check_triggers self env amount))"
  shows "\<exists>i m. e = TriggerAllActions i m"
proof -
  from assms have "e \<in> set (map (trigger_output_action self env) (select_trigger_output self env amount))
      \<or> e \<in> set (snd (pwm_loop self env (select_trigger_output_pwm self env)))"
    by (simp add: check_triggers_def Let_def split: prod.splits)
  then show ?thesis
  proof
    assume "e \<in> set (map (trigger_output_action self env) (select_trigger_output self env amount))"
    then show ?thesis by (auto simp: trigger_output_action_def)
  next
    assume "e \<in> set (snd (pwm_loop self env (select_trigger_output_pwm self env)))"
    from pwm_loop_events[OF this] show ?thesis by blast
  qed
qed

lemma output_on_off_off:
  "state_in_off state \<Longrightarrow> is_setup env \<Longrightarrow>
   output_on_off self env state ot amount0 min_off tc =
     triggers_and_return (turn_off self env ot) env (case amount0 of None \<Rightarrow> 0 | Some a \<Rightarrow> a) tc"
  by (simp add: output_on_off_def state_in_off_not_on)

lemma output_on_off_on:
  "state_in_on state \<Longrightarrow> is_setup env \<Longrightarrow>
   output_on_off self env state ot amount0 min_off tc =
     triggers_and_return (turn_on self env ot (case amount0 of None \<Rightarrow> 0 | Some a \<Rightarrow> a) min_off)
       env (case amount0 of None \<Rightarrow> 0 | Some a \<Rightarrow> a) tc"
  by (simp add: output_on_off_def Let_def)

lemma triggers_and_return_Raise [simp]:
  "triggers_and_return (Raise e, self', evs) env amount tc = (Inl e, self', evs)"
  by (simp add: triggers_and_return_def)

lemma triggers_and_return_Return [simp]:
  "triggers_and_return (Return code msg, self', evs) env amount tc = (Inr (code, msg), self', evs)"
  by (simp add: triggers_and_return_def)

lemma triggers_and_return_Continue:
  "triggers_and_return (Continue msg, self', evs) env amount tc =
     (if tc then
        (if isl (fst (check_triggers self' env amount)) then Inl (projl (fst (check_triggers self' env amount)))
         else Inr (0, msg),
         self', evs @ CheckTriggers amount # snd (check_triggers self' env amount))
      else (Inr (0, msg), self', evs))"
  by (simp add: triggers_and_return_def split: prod.splits sum.splits)

lemma turn_off_raises:
  "output_switch_raises env \<Longrightarrow>
   turn_off self env ot = (Raise DriverError, self, [OutputSwitch ''off'' ot None])"
  by (simp add: turn_off_def)

lemma turn_off_shape:
  "\<not> output_switch_raises env \<Longrightarrow>
   \<exists>msg self' ws. turn_off self env ot = (Continue msg, self', OutputSwitch ''off'' ot None # ws)
      \<and> \<not> output_off_triggered self'"
  by (simp add: turn_off_def Let_def split: prod.splits)

lemma off_until_check_sec:
  "ot = Some ''sec'' \<or> ot = None \<Longrightarrow> off_until_check self env ot = None"
  by (auto simp: off_until_check_def)

lemma turn_on_timed:
  "ot = Some ''sec'' \<or> ot = None \<Longrightarrow>
   output_type self \<in> set (ot_on_off (output_types self)) \<Longrightarrow> amount \<noteq> 0 \<Longrightarrow>
   turn_on self env ot amount min_off = on_for_duration self env amount min_off"
  by (auto simp: turn_on_def off_until_check_sec)

lemma on_for_duration_rearm:
  "is_on env \<Longrightarrow> output_on_duration self \<Longrightarrow>
   on_for_duration self env amount min_off =
     (Return 0 (AlreadyOnAmountMsg (unique_id self) (output_name self)
                  (abs (output_last_duration self))
                  (if output_on_until self > now env then output_on_until self - now env else 0)
                  (elapsed_on self (now env)) (abs amount)),
      self\<lparr>output_off_until :=
             (if min_off \<noteq> 0 then Some (now env + (abs amount + min_off))
              else output_off_until self),
           output_on_until := now env + abs amount,
           output_last_duration := amount\<rparr>,
      if elapsed_on self (now env) > 0
      then [WriteInfluxdbValue (unique_id self) ''s''
              (Some (if amount < 0 then - elapsed_on self (now env)
                     else elapsed_on self (now env)))
              ''duration_time'' 0 (Some (utcnow env - elapsed_on self (now env)))]
      else [])"
  by (simp add: on_for_duration_def elapsed_on_def Let_def)

lemma triggers_and_return_self [simp]:
  "fst (snd (triggers_and_return br env amount tc)) = fst (snd br)"
  by (simp add: triggers_and_return_def split: prod.splits flow.splits sum.splits)

lemma on_for_duration_config:
  "output_type (fst (snd (on_for_duration self env amount min_off))) = output_type self \<and>
   output_types (fst (snd (on_for_duration self env amount min_off))) = output_types self"
  by (simp add: on_for_duration_def Let_def)

lemma on_no_duration_config:
  "output_type (fst (snd (on_no_duration self env))) = output_type self \<and>
   output_types (fst (snd (on_no_duration self env))) = output_types self \<and>
   output_on_duration (fst (snd (on_no_duration self env))) = output_on_duration self"
  by (simp add: on_no_duration_def Let_def)

lemma turn_on_config:
  "output_type (fst (snd (turn_on self env ot amount min_off))) = output_type self \<and>
   output_types (fst (snd (turn_on self env ot amount min_off))) = output_types self"
  by (simp add: turn_on_def Let_def on_for_duration_config on_no_duration_config
      split: option.splits)

lemma turn_on_on_duration:
  "output_on_duration (fst (snd (turn_on self env ot amount min_off))) \<Longrightarrow>
   output_on_duration self \<or> output_type self \<in> set (ot_on_off (output_types self))"
  by (simp add: turn_on_def Let_def on_no_duration_config split: option.splits if_splits)

lemma turn_off_config:
  "output_type (fst (snd (turn_off self env ot))) = output_type self \<and>
   output_types (fst (snd (turn_off self env ot))) = output_types self \<and>
   (output_on_duration (fst (snd (turn_off self env ot))) \<longrightarrow> output_on_duration self)"
  by (simp add: turn_off_def Let_def split: prod.splits option.splits if_splits)

lemma output_on_off_capable:
  assumes "output_on_duration self \<longrightarrow> output_type self \<in> set (ot_on_off (output_types self))"
  shows "output_type (fst (snd (output_on_off self env state ot amount0 min_off tc))) = output_type self \<and>
         output_types (fst (snd (output_on_off self env state ot amount0 min_off tc))) = output_types self \<and>
         (output_on_duration (fst (snd (output_on_off self env state ot amount0 min_off tc))) \<longrightarrow>
            output_type self \<in> set (ot_on_off (output_types self)))"
  using assms turn_on_on_duration[of self env ot "case amount0 of None \<Rightarrow> 0 | Some a \<Rightarrow> a" min_off]
    turn_off_config[of self env ot]
  by (auto simp: output_on_off_def Let_def turn_on_config)

lemma run_capable:
  "output_on_duration self \<longrightarrow> output_type self \<in> set (ot_on_off (output_types self)) \<Longrightarrow>
   output_on_duration (run self calls) \<longrightarrow>
     output_type (run self calls) \<in> set (ot_on_off (output_types (run self calls)))"
proof (induction calls arbitrary: self)
  case Nil
  then show ?case by simp
next
  case (Cons c cs)
  from output_on_off_capable[OF Cons.prems, of "call_env c" "call_state c" "call_output_type c"
      "call_amount c" "call_min_off c" "call_trigger_conditionals c"]
  have "output_on_duration (fst (snd (do_call self c))) \<longrightarrow>
        output_type (fst (snd (do_call self c)))
          \<in> set (ot_on_off (output_types (fst (snd (do_call self c)))))"
    by (simp add: do_call_def)
  from Cons.IH[OF this] show ?case by simp
qed

lemma reachable_capable:
  "output_on_duration (run (setup_on_off_output self0 t0 info) calls) \<Longrightarrow>
   output_type (run (setup_on_off_output self0 t0 info) calls)
     \<in> set (ot_on_off (output_types (run (setup_on_off_output self0 t0 info) calls)))"
  using run_capable[of "setup_on_off_output self0 t0 info" calls]
  by (simp add: setup_on_off_output_def)






lemma on_for_duration_convert:
  "is_on env \<Longrightarrow> \<not> output_on_duration self \<Longrightarrow>
   on_for_duration self env amount min_off =
     (Return 0 (OnWithoutAmountMsg (unique_id self) (output_name self) (abs amount)),
      self\<lparr>output_off_until :=
             (if min_off \<noteq> 0 then Some (now env + (abs amount + min_off))
              else output_off_until self),
           output_on_duration := True,
           output_on_until := now env + abs amount,
           output_last_duration := amount\<rparr>,
      [])"
  by (simp add: on_for_duration_def Let_def)

lemma on_for_duration_switch:
  "\<not> is_on env \<Longrightarrow>
   on_for_duration self env amount min_off =
     (if output_switch_raises env then
        (Raise DriverError,
         (if min_off \<noteq> 0
          then self\<lparr>output_off_until := Some (now env + (abs amount + min_off))\<rparr>
          else self),
         [OutputSwitch ''on'' (Some ''sec'') (Some amount)])
      else
        (Continue (OnForMsg (unique_id self) (output_name self) (abs amount)),
         self\<lparr>output_off_until :=
                (if min_off \<noteq> 0 then Some (now env + (abs amount + min_off))
                 else output_off_until self),
              output_on_until := now env + abs amount,
              output_last_duration := amount,
              output_on_duration := True\<rparr>,
         [OutputSwitch ''on'' (Some ''sec'') (Some amount)]))"
  by (simp add: on_for_duration_def Let_def)

lemma on_no_duration_already_on:
  "is_on env \<Longrightarrow> \<not> output_force_command self \<Longrightarrow>
   on_no_duration self env =
     (Return 1 (AlreadyOnMsg (unique_id self) (output_name self)), self, [])"
  by (simp add: on_no_duration_def)

lemma on_no_duration_switch:
  "\<not> is_on env \<or> output_force_command self \<Longrightarrow>
   on_no_duration self env =
     (if output_switch_raises env then Raise DriverError
      else Continue (OnAtMsg (unique_id self) (output_name self)
                       (if output_time_turned_on self = None then Some (now env)
                        else output_time_turned_on self)),
      if output_time_turned_on self = None
      then self\<lparr>output_time_turned_on := Some (now env)\<rparr> else self,
      [OutputSwitch ''on'' (Some ''sec'') None])"
  by (auto simp: on_no_duration_def Let_def)



lemma turn_on_interlock:
  "off_until_check self env ot = Some fl \<Longrightarrow>
   turn_on self env ot amount min_off = (fl, self, [])"
  by (simp add: turn_on_def)

lemma turn_on_vol:
  "off_until_check self env ot = None \<Longrightarrow> volume_requested self ot \<Longrightarrow>
   turn_on self env ot amount min_off =
     (if output_switch_raises env then Raise DriverError
      else Continue (VolumeMsg (unique_id self) (output_name self) amount),
      self, [OutputSwitch ''on'' (Some ''vol'') (Some amount)])"
  by (simp add: turn_on_def volume_requested_def)

lemma turn_on_pwm:
  "off_until_check self env ot = None \<Longrightarrow> \<not> volume_requested self ot \<Longrightarrow>
   pwm_requested self ot \<Longrightarrow>
   turn_on self env ot amount min_off =
     (if output_switch_raises env then Raise DriverError
      else Continue (DutyCycleMsg (unique_id self) (output_name self) amount),
      self, [OutputSwitch ''on'' (Some ''pwm'') (Some amount)])"
  by (simp add: turn_on_def volume_requested_def pwm_requested_def)

lemma turn_on_duration:
  "duration_requested self ot amount \<Longrightarrow>
   turn_on self env ot amount min_off = on_for_duration self env amount min_off"
  by (simp add: duration_requested_def turn_on_timed)

lemma turn_on_rest:
  assumes "off_until_check self env ot = None" and "\<not> volume_requested self ot"
    and "\<not> pwm_requested self ot" and "\<not> duration_requested self ot amount"
  shows "turn_on self env ot amount min_off =
     (case OUTPUT_INFORMATION self of
        None \<Rightarrow> (Raise TypeError, self, [])
      | Some info \<Rightarrow>
          if on_requested info ot amount then on_no_duration self env
          else (Continue EmptyMsg, self, []))"
proof -
  have v: "(ot = Some ''vol'' \<and> output_type self \<in> set (ot_volume (output_types self))) = False"
    using assms(2) by (simp add: volume_requested_def)
  have p: "(ot = Some ''pwm'' \<and> output_type self \<in> set (ot_pwm (output_types self))) = False"
    using assms(3) by (simp add: pwm_requested_def)
  have d: "((ot = Some ''sec'' \<or> ot = None) \<and>
            output_type self \<in> set (ot_on_off (output_types self)) \<and> amount \<noteq> 0) = False"
    using assms(4) by (simp add: duration_requested_def)
  show ?thesis
    unfolding turn_on_def on_requested_def
    by (simp only: assms(1) option.case v p d if_False)
qed



lemma relay_reverse_20_reached:
  "relay_reverse_20 =
     run relay [request (env_at 0 False True) ''on'' (Some ''sec'') (Some (- 20)) 0]"
  by (simp add: relay_defs on_off_defs Let_def)

lemma relay_after_min_off_reached:
  "relay_after_min_off =
     run relay [request (env_at 0 False True) ''on'' (Some ''sec'') (Some 5) 60,
                request (env_at 5 True False) ''off'' (Some ''sec'') None 0]"
  by (simp add: relay_defs on_off_defs Let_def)


lemma relay_both_reached:
  "relay_both =
     run relay [request (env_at 0 False True) ''on'' (Some ''sec'') None 0,
                request (env_at 2 True True) ''on'' (Some ''sec'') (Some 10) 0]"
  by (simp add: relay_defs on_off_defs Let_def)

lemma turn_off_idle:
  "\<not> output_switch_raises env \<Longrightarrow> \<not> output_on_duration self \<Longrightarrow>
   output_time_turned_on self = None \<Longrightarrow>
   turn_off self env ot =
     (Continue (OffAtMsg (unique_id self) (output_name self) (time_time env)),
      self\<lparr>output_off_triggered := False\<rparr>, [OutputSwitch ''off'' ot None])"
  by (simp add: turn_off_def)

lemma turn_off_timed:
  "\<not> output_switch_raises env \<Longrightarrow> output_on_duration self \<Longrightarrow>
   output_time_turned_on self = None \<Longrightarrow>
   turn_off self env ot =
     (Continue (OffAtMsg (unique_id self) (output_name self) (time_time env)),
      self\<lparr>output_on_duration := False, output_on_until := now env,
           output_off_triggered := False\<rparr>,
      [OutputSwitch ''off'' ot None,
       WriteInfluxdbValue (unique_id self) ''s''
         (Some (if output_last_duration self < 0 then - elapsed_on self (now env)
                else elapsed_on self (now env)))
         ''duration_time'' 0 (Some (utcnow env - elapsed_on self (now env)))])"
  by (simp add: turn_off_def elapsed_on_def Let_def)

lemma turn_off_indefinite:
  "\<not> output_switch_raises env \<Longrightarrow> output_time_turned_on self = Some t \<Longrightarrow>
   turn_off self env ot =
     (Continue (OffAtMsg (unique_id self) (output_name self) (time_time env)),
      (if output_on_duration self
       then self\<lparr>output_on_duration := False, output_on_until := now env\<rparr> else self)
         \<lparr>output_time_turned_on := None, output_off_triggered := False\<rparr>,
      [OutputSwitch ''off'' ot None,
       WriteInfluxdbValue (unique_id self) ''s'' (Some (now env - t))
         ''duration_time'' 0 (Some (utcnow env - (now env - t)))])"
  by (simp add: turn_off_def Let_def)



lemma on_for_duration_time_turned_on:
  "output_time_turned_on (fst (snd (on_for_duration self env amount min_off))) =
     output_time_turned_on self"
proof (cases "is_on env")
  case True
  then show ?thesis
    by (cases "output_on_duration self")
      (simp_all add: on_for_duration_rearm on_for_duration_convert)
next
  case False
  then show ?thesis by (simp add: on_for_duration_switch)
qed

lemma off_until_check_flow:
  "off_until_check self env ot = Some fl \<Longrightarrow>
   ot = Some ''on_off'' \<and> (fl = Raise TypeError \<or> (\<exists>m. fl = Return 1 m))"
  by (auto simp: off_until_check_def split: if_splits option.splits)







lemma check_triggers_no_write:
  "filter is_write_influxdb (snd (check_triggers self env amount)) = []"
  by (auto simp: filter_empty_conv is_write_influxdb_def dest!: check_triggers_events)


lemma check_triggers_no_check:
  "filter is_check_triggers (snd (check_triggers self env amount)) = []"
  by (auto simp: filter_empty_conv is_check_triggers_def dest!: check_triggers_events)

lemma turn_off_no_check:
  "filter is_check_triggers (snd (snd (turn_off self env ot))) = []"
proof (cases "output_switch_raises env")
  case True
  then show ?thesis by (simp add: turn_off_raises is_check_triggers_def)
next
  case False
  show ?thesis
  proof (cases "output_time_turned_on self")
    case None
    with False show ?thesis
      by (cases "output_on_duration self")
        (simp_all add: turn_off_idle turn_off_timed is_check_triggers_def)
  next
    case (Some t)
    with False show ?thesis by (simp add: turn_off_indefinite is_check_triggers_def)
  qed
qed

lemma turn_off_flow:
  "fst (turn_off self env ot) = Raise DriverError \<or> (\<exists>m. fst (turn_off self env ot) = Continue m)"
  using turn_off_shape[of env self ot]
  by (cases "output_switch_raises env") (auto simp: turn_off_raises)

lemma on_for_duration_shape:
  "(is_on env \<and> (\<exists>m. fst (on_for_duration self env amount min_off) = Return 0 m) \<and>
      filter is_check_triggers (snd (snd (on_for_duration self env amount min_off))) = [] \<and>
      filter is_output_switch (snd (snd (on_for_duration self env amount min_off))) = []) \<or>
   (\<not> is_on env \<and>
      (if output_switch_raises env
       then fst (on_for_duration self env amount min_off) = Raise DriverError
       else (\<exists>m. fst (on_for_duration self env amount min_off) = Continue m)) \<and>
      snd (snd (on_for_duration self env amount min_off)) =
        [OutputSwitch ''on'' (Some ''sec'') (Some amount)])"
proof (cases "is_on env")
  case True
  then show ?thesis
    by (cases "output_on_duration self")
      (simp_all add: on_for_duration_rearm on_for_duration_convert is_check_triggers_def
        is_output_switch_def)
next
  case False
  then show ?thesis by (simp add: on_for_duration_switch)
qed

lemma on_no_duration_shape:
  "((\<exists>m. fst (on_no_duration self env) = Return 1 m) \<and> snd (snd (on_no_duration self env)) = []) \<or>
   ((if output_switch_raises env then fst (on_no_duration self env) = Raise DriverError
     else (\<exists>m. fst (on_no_duration self env) = Continue m)) \<and>
    snd (snd (on_no_duration self env)) = [OutputSwitch ''on'' (Some ''sec'') None])"
proof (cases "is_on env \<and> \<not> output_force_command self")
  case True
  then show ?thesis by (simp add: on_no_duration_already_on)
next
  case False
  then have "\<not> is_on env \<or> output_force_command self" by simp
  from on_no_duration_switch[OF this] show ?thesis by simp
qed

lemma turn_on_shape:
  "branch_shape (duration_requested self ot amount \<and> is_on env) (output_switch_raises env)
     (turn_on self env ot amount min_off)"
proof (cases "duration_requested self ot amount")
  case True
  with on_for_duration_shape[of env self amount min_off] show ?thesis
    by (auto simp: turn_on_duration branch_shape_def)
next
  case nd: False
  show ?thesis
  proof (cases "off_until_check self env ot")
    case (Some fl)
    with off_until_check_flow[OF Some] nd show ?thesis
      by (auto simp: turn_on_interlock branch_shape_def)
  next
    case None
    show ?thesis
    proof (cases "volume_requested self ot")
      case True
      with nd show ?thesis by (simp add: turn_on_vol[OF None True] branch_shape_def)
    next
      case nv: False
      show ?thesis
      proof (cases "pwm_requested self ot")
        case True
        with nd show ?thesis by (simp add: turn_on_pwm[OF None nv True] branch_shape_def)
      next
        case np: False
        show ?thesis
        proof (cases "OUTPUT_INFORMATION self")
          case inone: None
          with nd show ?thesis by (simp add: turn_on_rest[OF None nv np nd] branch_shape_def)
        next
          case (Some info)
          show ?thesis
          proof (cases "on_requested info ot amount")
            case True
            with Some have eq: "turn_on self env ot amount min_off = on_no_duration self env"
              by (simp add: turn_on_rest[OF None nv np nd])
            from on_no_duration_shape[of self env] nd show ?thesis
              unfolding eq by (auto simp: branch_shape_def)
          next
            case False
            with nd Some show ?thesis
              by (simp add: turn_on_rest[OF None nv np nd] branch_shape_def)
          qed
        qed
      qed
    qed
  qed
qed

lemma triggers_and_return_checks:
  assumes "triggers_and_return br env amount True = (Inr (0, msg), self', evs)"
  shows "(\<exists>m. fst br = Return 0 m) \<and> evs = snd (snd br) \<or>
         (\<exists>m. fst br = Continue m) \<and>
           evs = snd (snd br) @ CheckTriggers amount # snd (check_triggers (fst (snd br)) env amount)"
proof (cases br)
  case (fields fl s e)
  with assms show ?thesis
    by (cases fl) (auto simp: triggers_and_return_Continue split: if_splits)
qed

lemma filter_unique_key:
  "distinct (map f xs) \<Longrightarrow> x \<in> set xs \<Longrightarrow> filter (\<lambda>y. f y = f x) xs = [x]"
proof (induction xs)
  case Nil
  then show ?case by simp
next
  case (Cons y ys)
  show ?case
  proof (cases "y = x")
    case True
    with Cons.prems(1) have "f x \<notin> f ` set ys" by simp
    then have "\<forall>z \<in> set ys. f z \<noteq> f x" by (metis image_eqI)
    then have "filter (\<lambda>z. f z = f x) ys = []"
      by (simp add: filter_empty_conv)
    with True show ?thesis by simp
  next
    case False
    with Cons.prems have "x \<in> set ys" and "f y \<noteq> f x" by auto
    with Cons.IH Cons.prems(1) show ?thesis by simp
  qed
qed

lemma filter_unique_key_filter:
  assumes "distinct (map f xs)" and "x \<in> set xs"
  shows "filter (\<lambda>y. f y = f x) (filter Q xs) = (if Q x then [x] else [])"
proof -
  have "filter (\<lambda>y. f y = f x) (filter Q xs) = filter Q (filter (\<lambda>y. f y = f x) xs)"
    by (simp add: conj_commute)
  with filter_unique_key[OF assms] show ?thesis by simp
qed

lemma select_trigger_output_on:
  "is_on_check env \<Longrightarrow>
   select_trigger_output self env amount =
     filter (\<lambda>t. trigger_type t = ''trigger_output'' \<and> unique_id_1 t = unique_id self \<and>
                 is_activated t \<and> trigger_output_state t \<in> set on_duration_states \<and>
                 on_duration_filter amount t) (triggers env)"
  by (simp add: select_trigger_output_def Let_def)

lemma dispatches_of_append:
  "dispatches_of i (xs @ ys) = dispatches_of i xs @ dispatches_of i ys"
  by (simp add: dispatches_of_def)

lemma dispatches_of_actions:
  "dispatches_of i (map (trigger_output_action self env) ts) =
     map (trigger_output_action self env) (filter (\<lambda>t. trigger_unique_id t = i) ts)"
  by (induction ts) (simp_all add: dispatches_of_def trigger_output_action_def)

lemma dispatches_of_pwm_loop:
  assumes "\<forall>t \<in> set ts. trigger_unique_id t \<noteq> i"
  shows "dispatches_of i (snd (pwm_loop self env ts)) = []"
proof -
  have "\<And>e. e \<in> set (snd (pwm_loop self env ts)) \<Longrightarrow>
          \<not> (case e of TriggerAllActions j m \<Rightarrow> j = i | _ \<Rightarrow> False)"
  proof -
    fix e assume "e \<in> set (snd (pwm_loop self env ts))"
    from pwm_loop_events[OF this] obtain t m where
      "t \<in> set ts" "e = TriggerAllActions (trigger_unique_id t) m" by blast
    with assms show "\<not> (case e of TriggerAllActions j m \<Rightarrow> j = i | _ \<Rightarrow> False)" by simp
  qed
  then show ?thesis by (simp add: dispatches_of_def filter_empty_conv)
qed

lemma pwm_rows_other_id:
  assumes "distinct (map trigger_unique_id (triggers env))" and "r \<in> set (triggers env)"
    and "trigger_type r = ''trigger_output''"
  shows "\<forall>t \<in> set (select_trigger_output_pwm self env).
           trigger_unique_id t \<noteq> trigger_unique_id r"
proof
  fix t assume "t \<in> set (select_trigger_output_pwm self env)"
  then have t: "t \<in> set (triggers env)" "trigger_type t = ''trigger_output_pwm''"
    by (simp_all add: select_trigger_output_pwm_def Let_def)
  show "trigger_unique_id t \<noteq> trigger_unique_id r"
  proof
    assume "trigger_unique_id t = trigger_unique_id r"
    with assms(1,2) t(1) have "t = r"
      by (meson distinct_map inj_on_eq_iff)
    with t(2) assms(3) show False by simp
  qed
qed

lemma check_triggers_no_rules:
  "triggers env = [] \<Longrightarrow> check_triggers self env amount = (Inr (), [])"
  by (simp add: check_triggers_def select_trigger_output_def select_trigger_output_pwm_def
      Let_def)



subsection \<open>The claims\<close>

text \<open>
  C6. Every OFF request on a set-up output calls the driver, \<^verbatim>\<open>output_switch('off', ...)\<close>,
  as its first action, whatever \<^verbatim>\<open>output_off_until\<close> and the current mode are. Unless the
  driver raises, \<^verbatim>\<open>output_off_triggered\<close> is false afterwards; in particular it is false
  whenever the call returns, and the call then returns code 0.
\<close>

theorem C6_off:
  assumes "state_in_off state" and "is_setup env"
  shows "(\<exists>evs. snd (snd (output_on_off self env state ot amount0 min_off tc)) =
            OutputSwitch ''off'' ot None # evs) \<and>
         (\<not> output_switch_raises env \<longrightarrow>
            \<not> output_off_triggered (fst (snd (output_on_off self env state ot amount0 min_off tc)))) \<and>
         (\<forall>x. fst (output_on_off self env state ot amount0 min_off tc) = Inr x \<longrightarrow>
            \<not> output_switch_raises env \<and> fst x = 0)"
proof (cases "output_switch_raises env")
  case True
  then show ?thesis
    by (simp add: output_on_off_off[OF assms] turn_off_raises)
next
  case False
  from turn_off_shape[OF False, of self ot] obtain msg self' ws where
    "turn_off self env ot = (Continue msg, self', OutputSwitch ''off'' ot None # ws)"
    "\<not> output_off_triggered self'" by blast
  with False show ?thesis
    by (simp add: output_on_off_off[OF assms] triggers_and_return_Continue)
qed

theorem C6_off_witness:
  "state_in_off (StateStr ''off'') \<and> is_setup (env_at 5 True False) \<and>
   output_off_until relay_locked = Some 80 \<and> now (env_at 5 True False) = 5 \<and>
   output_off_triggered relay_locked \<and>
   (\<exists>evs. snd (snd (output_on_off relay_locked (env_at 5 True False) (StateStr ''off'')
                      (Some ''sec'') None 0 True)) =
            OutputSwitch ''off'' (Some ''sec'') None # evs) \<and>
   \<not> output_off_triggered (fst (snd (output_on_off relay_locked (env_at 5 True False)
                      (StateStr ''off'') (Some ''sec'') None 0 True)))"
  using C6_off[of "StateStr ''off''" "env_at 5 True False" relay_locked "Some ''sec''" None 0 True]
  by (simp add: relay_defs)

text \<open>
  C2. An ON request with \<^verbatim>\<open>output_type\<close> \<^verbatim>\<open>'sec'\<close> or \<^verbatim>\<open>None\<close> and a non-zero amount, on a
  set-up output that is on and in duration mode (in a state reached from a freshly set-up
  one), makes no call of the driver: the only call made is one \<^verbatim>\<open>write_influxdb_value\<close>
  for the time \<open>time_on = |last_duration| - remaining\<close>, and only when \<open>time_on > 0\<close>, with
  the timestamp \<open>utcnow - time_on\<close>. The call sets \<^verbatim>\<open>output_last_duration\<close> to the amount and
  \<^verbatim>\<open>output_on_until\<close> to \<open>now + |amount|\<close> and returns code 0.
\<close>

theorem C2_rearm:
  assumes "self = run (setup_on_off_output self0 t0 info) calls"
    and "state_in_on state" and "is_setup env" and "is_on env"
    and "output_on_duration self"
    and "ot = Some ''sec'' \<or> ot = None" and "amount \<noteq> 0"
  shows "output_on_off self env state ot (Some amount) min_off tc =
     (Inr (0, AlreadyOnAmountMsg (unique_id self) (output_name self)
                (abs (output_last_duration self))
                (if output_on_until self > now env then output_on_until self - now env else 0)
                (elapsed_on self (now env)) (abs amount)),
      self\<lparr>output_off_until :=
             (if min_off \<noteq> 0 then Some (now env + (abs amount + min_off))
              else output_off_until self),
           output_on_until := now env + abs amount,
           output_last_duration := amount\<rparr>,
      if elapsed_on self (now env) > 0
      then [WriteInfluxdbValue (unique_id self) ''s''
              (Some (if amount < 0 then - elapsed_on self (now env)
                     else elapsed_on self (now env)))
              ''duration_time'' 0 (Some (utcnow env - elapsed_on self (now env)))]
      else [])"
proof -
  have cap: "output_type self \<in> set (ot_on_off (output_types self))"
    using assms(1,5) reachable_capable by blast
  show ?thesis
    by (simp only: output_on_off_on[OF assms(2,3)] option.case
        turn_on_timed[OF assms(6) cap assms(7)] on_for_duration_rearm[OF assms(4,5)]
        triggers_and_return_Return)
qed

theorem C2_rearm_witness:
  "relay_on_20 = run (setup_on_off_output relay_init 0 [''output_types'' \<mapsto> [''on_off'']])
       [request (env_at 0 False True) ''on'' (Some ''sec'') (Some 20) 0] \<and>
   output_on_duration relay_on_20 \<and>
   output_on_off relay_on_20 (env_at 5 True True) (StateStr ''on'') (Some ''sec'') (Some 30) 0 True =
     (Inr (0, AlreadyOnAmountMsg ''0a1b-2c3d'' ''relay'' 20 15 5 30),
      relay_on_20\<lparr>output_on_until := 35, output_last_duration := 30\<rparr>,
      [WriteInfluxdbValue ''0a1b-2c3d'' ''s'' (Some 5) ''duration_time'' 0 (Some (- 3600))])"
proof -
  have r: "relay_on_20 = run (setup_on_off_output relay_init 0 [''output_types'' \<mapsto> [''on_off'']])
       [request (env_at 0 False True) ''on'' (Some ''sec'') (Some 20) 0]"
    by (simp add: relay_on_20_def relay_defs on_off_defs triggers_and_return_def check_triggers_def
        select_trigger_output_def select_trigger_output_pwm_def Let_def)
  have d: "output_on_duration relay_on_20" by (simp add: relay_on_20_def)
  have st: "state_in_on (StateStr ''on'')" by (simp add: state_in_on_def)
  have e: "is_setup (env_at 5 True True)" "is_on (env_at 5 True True)"
    by (simp_all add: env_at_def)
  have eq: "output_on_off relay_on_20 (env_at 5 True True) (StateStr ''on'') (Some ''sec'')
              (Some 30) 0 True =
            (Inr (0, AlreadyOnAmountMsg ''0a1b-2c3d'' ''relay'' 20 15 5 30),
             relay_on_20\<lparr>output_on_until := 35, output_last_duration := 30\<rparr>,
             [WriteInfluxdbValue ''0a1b-2c3d'' ''s'' (Some 5) ''duration_time'' 0
                (Some (- 3600))])"
    by (subst C2_rearm[OF r st e d, of "Some ''sec''" 30 0 True])
      (simp_all add: relay_on_20_def relay_defs elapsed_on_def)
  from r d eq show ?thesis by blast
qed




text \<open>
  C8. The claim is that the sample written when a timed output is re-armed carries the sign
  of the \<^verbatim>\<open>output_last_duration\<close> that was in effect during the interval recorded. The code
  assigns \<^verbatim>\<open>output_last_duration = amount\<close> (line 278) before it tests
  \<^verbatim>\<open>output_last_duration < 0\<close> (line 285): a relay running in reverse for 20 seconds
  (\<open>amount = -20\<close>) and re-armed after 5 seconds with \<open>amount = 30\<close> records \<open>+5\<close> seconds,
  whereas the OFF branch (lines 384-386) records \<open>-5\<close> for the same interval.
\<close>

theorem C8_rearm_sample_takes_new_sign:
  "relay_reverse_20 =
     run relay [request (env_at 0 False True) ''on'' (Some ''sec'') (Some (- 20)) 0] \<and>
   output_last_duration relay_reverse_20 = - 20 \<and>
   output_on_off relay_reverse_20 (env_at 5 True True) (StateStr ''on'') (Some ''sec'')
       (Some 30) 0 True =
     (Inr (0, AlreadyOnAmountMsg ''0a1b-2c3d'' ''relay'' 20 15 5 30),
      relay_reverse_20\<lparr>output_on_until := 35, output_last_duration := 30\<rparr>,
      [WriteInfluxdbValue ''0a1b-2c3d'' ''s'' (Some 5) ''duration_time'' 0 (Some (- 3600))]) \<and>
   snd (snd (output_on_off relay_reverse_20 (env_at 5 True False) (StateStr ''off'')
               (Some ''sec'') None 0 True)) =
     [OutputSwitch ''off'' (Some ''sec'') None,
      WriteInfluxdbValue ''0a1b-2c3d'' ''s'' (Some (- 5)) ''duration_time'' 0 (Some (- 3600)),
      CheckTriggers 0]"
  using relay_reverse_20_reached
  by (simp add: relay_defs on_off_defs Let_def)

text \<open>
  C1. The claim is that an ON request without a duration is refused while
  \<^verbatim>\<open>output_off_until\<close> lies in the future. The check of lines 212-228 is guarded by
  \<^verbatim>\<open>output_type == 'on_off'\<close>, a value of the parameter for which no branch switches the
  output on; a request with \<^verbatim>\<open>output_type='sec'\<close> never reaches it. After a timed request
  with \<^verbatim>\<open>min_off=60\<close> at time 0 and an OFF request at time 5, \<^verbatim>\<open>output_off_until\<close> is 65,
  and an ON request at time 10 calls the driver, sets \<^verbatim>\<open>output_time_turned_on\<close> and
  returns code 0.
\<close>

theorem C1_sec_request_not_interlocked:
  "relay_after_min_off =
     run relay [request (env_at 0 False True) ''on'' (Some ''sec'') (Some 5) 60,
                request (env_at 5 True False) ''off'' (Some ''sec'') None 0] \<and>
   output_off_until relay_after_min_off = Some 65 \<and> now (env_at 10 False True) = 10 \<and>
   output_on_off relay_after_min_off (env_at 10 False True) (StateStr ''on'') (Some ''sec'')
       None 0 True =
     (Inr (0, OnAtMsg ''0a1b-2c3d'' ''relay'' (Some 10)),
      relay_after_min_off\<lparr>output_time_turned_on := Some 10\<rparr>,
      [OutputSwitch ''on'' (Some ''sec'') None, CheckTriggers 0])"
  using relay_after_min_off_reached
  by (simp add: relay_defs on_off_defs Let_def)




text \<open>
  C7 (as amended). An OFF request on a set-up output whose driver does not raise starts at
  most one \<^verbatim>\<open>write_influxdb_value\<close>. In duration mode with \<^verbatim>\<open>output_time_turned_on\<close> unset
  it writes \<open>elapsed = |last_duration| - remaining\<close>, with the sign of
  \<^verbatim>\<open>output_last_duration\<close>, at the timestamp \<open>utcnow - elapsed\<close>. When
  \<^verbatim>\<open>output_time_turned_on\<close> is set, in duration mode or not, it writes
  \<open>now - time_turned_on\<close> at the timestamp \<open>utcnow - (now - time_turned_on)\<close> instead. When
  neither is set it writes nothing. In duration mode the call sets \<^verbatim>\<open>output_on_duration\<close>
  to false and \<^verbatim>\<open>output_on_until\<close> to \<open>now\<close>.
\<close>

theorem C7_off_sample:
  assumes "state_in_off state" and "is_setup env" and "\<not> output_switch_raises env"
  shows "filter is_write_influxdb
           (snd (snd (output_on_off self env state ot amount0 min_off tc))) =
         (case output_time_turned_on self of
            Some t \<Rightarrow>
              [WriteInfluxdbValue (unique_id self) ''s'' (Some (now env - t))
                 ''duration_time'' 0 (Some (utcnow env - (now env - t)))]
          | None \<Rightarrow>
              if output_on_duration self
              then [WriteInfluxdbValue (unique_id self) ''s''
                      (Some (if output_last_duration self < 0 then - elapsed_on self (now env)
                             else elapsed_on self (now env)))
                      ''duration_time'' 0 (Some (utcnow env - elapsed_on self (now env)))]
              else []) \<and>
         (if output_on_duration self
          then \<not> output_on_duration (fst (snd (output_on_off self env state ot amount0 min_off tc)))
               \<and> output_on_until (fst (snd (output_on_off self env state ot amount0 min_off tc)))
                   = now env
          else output_on_until (fst (snd (output_on_off self env state ot amount0 min_off tc)))
                 = output_on_until self)"
proof (cases "output_time_turned_on self")
  case None
  show ?thesis
  proof (cases "output_on_duration self")
    case True
    with None show ?thesis
      by (simp add: output_on_off_off[OF assms(1,2)] turn_off_timed[OF assms(3) True None]
          triggers_and_return_Continue check_triggers_no_write is_write_influxdb_def)
  next
    case False
    with None show ?thesis
      by (simp add: output_on_off_off[OF assms(1,2)] turn_off_idle[OF assms(3) False None]
          triggers_and_return_Continue check_triggers_no_write is_write_influxdb_def)
  qed
next
  case (Some t)
  then show ?thesis
    by (simp add: output_on_off_off[OF assms(1,2)] turn_off_indefinite[OF assms(3) Some]
        triggers_and_return_Continue check_triggers_no_write is_write_influxdb_def)
qed

theorem C7_off_sample_witness:
  "state_in_off (StateStr ''off'') \<and> is_setup (env_at 5 True False) \<and>
   \<not> output_switch_raises (env_at 5 True False) \<and>
   filter is_write_influxdb
     (snd (snd (output_on_off relay_reverse_20 (env_at 5 True False) (StateStr ''off'')
                  (Some ''sec'') None 0 True))) =
     [WriteInfluxdbValue ''0a1b-2c3d'' ''s'' (Some (- 5)) ''duration_time'' 0 (Some (- 3600))] \<and>
   \<not> output_on_duration
       (fst (snd (output_on_off relay_reverse_20 (env_at 5 True False) (StateStr ''off'')
                    (Some ''sec'') None 0 True))) \<and>
   output_on_until
       (fst (snd (output_on_off relay_reverse_20 (env_at 5 True False) (StateStr ''off'')
                    (Some ''sec'') None 0 True))) = 5"
proof -
  have h: "state_in_off (StateStr ''off'')" "is_setup (env_at 5 True False)"
    "\<not> output_switch_raises (env_at 5 True False)"
    by (simp_all add: state_in_off_def env_at_def)
  from C7_off_sample[OF h, of relay_reverse_20 "Some ''sec''" None 0 True] h
  show ?thesis
    by (simp add: relay_defs elapsed_on_def)
qed

text \<open>
  C7 as stated fails in duration mode when \<^verbatim>\<open>output_time_turned_on\<close> is set as well: the
  second \<^verbatim>\<open>if\<close> (line 391) overwrites \<^verbatim>\<open>duration_sec\<close> and \<^verbatim>\<open>timestamp\<close>. The relay turned
  on without a duration at time 0 and for 10 seconds at time 2 has been on for 3 seconds of
  its timed period at time 5; the sample written is 5.
\<close>

theorem C7_both_modes_counterexample:
  "relay_both =
     run relay [request (env_at 0 False True) ''on'' (Some ''sec'') None 0,
                request (env_at 2 True True) ''on'' (Some ''sec'') (Some 10) 0] \<and>
   output_on_duration relay_both \<and> output_last_duration relay_both = 10 \<and>
   elapsed_on relay_both (now (env_at 5 True False)) = 3 \<and>
   snd (snd (output_on_off relay_both (env_at 5 True False) (StateStr ''off'')
               (Some ''sec'') None 0 True)) =
     [OutputSwitch ''off'' (Some ''sec'') None,
      WriteInfluxdbValue ''0a1b-2c3d'' ''s'' (Some 5) ''duration_time'' 0 (Some (- 3600)),
      CheckTriggers 0]"
  using relay_both_reached
  by (simp add: relay_defs on_off_defs elapsed_on_def Let_def)

text \<open>
  C4 (as amended). A call of \<^verbatim>\<open>output_on_off\<close> with \<^verbatim>\<open>trigger_conditionals\<close> true that
  returns code 0 has called \<^verbatim>\<open>check_triggers\<close> exactly once, with the amount of the
  request, unless it is a timed ON request on an output that is already on: the two
  branches that only update the timing of such an output (lines 257-301 and 304-316) return
  code 0 without calling \<^verbatim>\<open>check_triggers\<close>.
\<close>

theorem C4_triggers_checked:
  assumes "output_on_off self env state ot amount0 min_off True = (Inr (0, msg), self', evs)"
  shows "filter is_check_triggers evs =
           (if state_in_on state \<and> is_on env \<and> duration_requested self ot (amount_or_0 amount0)
            then [] else [CheckTriggers (amount_or_0 amount0)])"
proof -
  from assms have v: "state_in_on state \<or> state_in_off state" and s: "is_setup env"
    by (auto simp: output_on_off_def Let_def split: if_splits)
  show ?thesis
  proof (cases "state_in_on state")
    case True
    let ?br = "turn_on self env ot (amount_or_0 amount0) min_off"
    from assms have "triggers_and_return ?br env (amount_or_0 amount0) True = (Inr (0, msg), self', evs)"
      by (simp add: output_on_off_on[OF True s] amount_or_0_def)
    from triggers_and_return_checks[OF this]
      turn_on_shape[of self ot "amount_or_0 amount0" env min_off] True
    show ?thesis
      by (auto simp: branch_shape_def check_triggers_no_check is_check_triggers_def
          split: if_splits)
  next
    case False
    with v have off: "state_in_off state" by simp
    let ?br = "turn_off self env ot"
    from assms have "triggers_and_return ?br env (amount_or_0 amount0) True = (Inr (0, msg), self', evs)"
      by (simp add: output_on_off_off[OF off s] amount_or_0_def)
    from triggers_and_return_checks[OF this] turn_off_flow[of self env ot]
      turn_off_no_check[of self env ot] False
    show ?thesis
      by (auto simp: check_triggers_no_check is_check_triggers_def)
  qed
qed

theorem C4_triggers_checked_witness:
  "output_on_off relay env_rule (StateStr ''on'') (Some ''sec'') (Some 20) 0 True =
     (Inr (0, OnForMsg ''0a1b-2c3d'' ''relay'' 20), relay_on_20,
      [OutputSwitch ''on'' (Some ''sec'') (Some 20), CheckTriggers 20,
       TriggerAllActions ''7e8f-9a0b''
         (TriggerMsg 0 ''7e8f'' ''long run'' ''0a1b-2c3d'' ''long run''
            ''on_duration_greater_than'')]) \<and>
   filter is_check_triggers
     [OutputSwitch ''on'' (Some ''sec'') (Some 20), CheckTriggers 20,
       TriggerAllActions ''7e8f-9a0b''
         (TriggerMsg 0 ''7e8f'' ''long run'' ''0a1b-2c3d'' ''long run''
            ''on_duration_greater_than'')] = [CheckTriggers 20]"
proof -
  have r: "output_on_off relay env_rule (StateStr ''on'') (Some ''sec'') (Some 20) 0 True =
     (Inr (0, OnForMsg ''0a1b-2c3d'' ''relay'' 20), relay_on_20,
      [OutputSwitch ''on'' (Some ''sec'') (Some 20), CheckTriggers 20,
       TriggerAllActions ''7e8f-9a0b''
         (TriggerMsg 0 ''7e8f'' ''long run'' ''0a1b-2c3d'' ''long run''
            ''on_duration_greater_than'')])"
    by (simp add: relay_defs on_off_defs on_duration_filter_def on_duration_states_def
        trigger_output_action_def split_dash_0_def Let_def)
  have "\<not> is_on env_rule" by (simp add: relay_defs)
  with C4_triggers_checked[OF r] r show ?thesis by (simp add: amount_or_0_def)
qed

text \<open>
  C4 as stated fails: the relay that is on without a duration accepts a request for 10
  seconds (code 0) and makes no call at all.
\<close>

theorem C4_no_triggers_counterexample:
  "relay_on_indefinite =
     run relay [request (env_at 0 False True) ''on'' (Some ''sec'') None 0] \<and>
   output_on_off relay_on_indefinite (env_at 2 True True) (StateStr ''on'') (Some ''sec'')
       (Some 10) 0 True =
     (Inr (0, OnWithoutAmountMsg ''0a1b-2c3d'' ''relay'' 10), relay_both, [])"
  by (simp add: relay_defs on_off_defs Let_def)

text \<open>
  C9. When \<^verbatim>\<open>check_triggers\<close> runs while \<^verbatim>\<open>is_on()\<close> reports the output on, an activated rule
  of type \<^verbatim>\<open>trigger_output\<close> and kind \<^verbatim>\<open>on_duration_greater_than\<close> bound to the output (the
  identifiers of the rules of the table being distinct) is passed to
  \<^verbatim>\<open>trigger_all_actions\<close> exactly once when the amount given to \<^verbatim>\<open>check_triggers\<close> is
  greater than the threshold of the rule, and not at all otherwise; the object, and so
  \<^verbatim>\<open>output_last_duration\<close>, plays no part.
\<close>

theorem C9_on_duration_greater_than:
  assumes "is_on_check env"
    and "r \<in> set (triggers env)"
    and "distinct (map trigger_unique_id (triggers env))"
    and "trigger_type r = ''trigger_output''"
    and "unique_id_1 r = unique_id self"
    and "is_activated r"
    and "trigger_output_state r = ''on_duration_greater_than''"
    and "output_duration r = Some threshold"
  shows "dispatches_of (trigger_unique_id r) (snd (check_triggers self env amount)) =
           (if amount > threshold then [trigger_output_action self env r] else [])"
proof -
  let ?Q = "\<lambda>t. trigger_type t = ''trigger_output'' \<and> unique_id_1 t = unique_id self \<and>
                 is_activated t \<and> trigger_output_state t \<in> set on_duration_states \<and>
                 on_duration_filter amount t"
  have q: "?Q r = (amount > threshold)"
    using assms(4-8) by (simp add: on_duration_states_def on_duration_filter_def)
  have "filter (\<lambda>t. trigger_unique_id t = trigger_unique_id r)
               (select_trigger_output self env amount) =
             (if ?Q r then [r] else [])"
    unfolding select_trigger_output_on[OF assms(1)]
    by (rule filter_unique_key_filter[OF assms(3,2)])
  then have sel: "filter (\<lambda>t. trigger_unique_id t = trigger_unique_id r)
               (select_trigger_output self env amount) =
             (if amount > threshold then [r] else [])"
    by (simp only: q)
  have pwm: "dispatches_of (trigger_unique_id r)
               (snd (pwm_loop self env (select_trigger_output_pwm self env))) = []"
    by (rule dispatches_of_pwm_loop[OF pwm_rows_other_id[OF assms(3,2,4)]])
  have "snd (check_triggers self env amount) =
          map (trigger_output_action self env) (select_trigger_output self env amount) @
          snd (pwm_loop self env (select_trigger_output_pwm self env))"
    by (simp add: check_triggers_def Let_def split: prod.splits)
  then show ?thesis
    by (simp add: dispatches_of_append dispatches_of_actions sel pwm)
qed

theorem C9_on_duration_greater_than_witness:
  "output_last_duration relay_on_20 = 20 \<and>
   dispatches_of ''7e8f-9a0b'' (snd (check_triggers relay_on_20 env_rule 20)) =
     [TriggerAllActions ''7e8f-9a0b''
        (TriggerMsg 0 ''7e8f'' ''long run'' ''0a1b-2c3d'' ''long run''
           ''on_duration_greater_than'')] \<and>
   dispatches_of ''7e8f-9a0b'' (snd (check_triggers relay_on_20 env_rule 10)) = []"
proof -
  have h: "is_on_check env_rule" "rule_above_15 \<in> set (triggers env_rule)"
    "distinct (map trigger_unique_id (triggers env_rule))"
    "trigger_type rule_above_15 = ''trigger_output''"
    "unique_id_1 rule_above_15 = unique_id relay_on_20"
    "is_activated rule_above_15"
    "trigger_output_state rule_above_15 = ''on_duration_greater_than''"
    "output_duration rule_above_15 = Some 15"
    by (simp_all add: relay_defs)
  from C9_on_duration_greater_than[OF h, of 20] C9_on_duration_greater_than[OF h, of 10]
  show ?thesis
    by (simp add: relay_defs trigger_output_action_def split_dash_0_def)
qed

text \<open>
  C10. There are ON requests on a set-up output that no branch takes: the check of
  \<^verbatim>\<open>output_off_until\<close> lets the request pass and none of the four conditions of lines 231,
  240, 249 and 333 holds, as for \<^verbatim>\<open>output_type='vol'\<close> on an output without the volume
  capability, or for \<^verbatim>\<open>output_type='on_off'\<close> once \<^verbatim>\<open>output_off_until\<close> has passed. Such a
  call makes no call of the driver and leaves the object as it is; it calls
  \<^verbatim>\<open>check_triggers\<close> when \<^verbatim>\<open>trigger_conditionals\<close> is true and, when that returns, returns
  code 0 with the empty message.
\<close>

theorem C10_no_branch:
  assumes "state_in_on state" and "is_setup env"
    and "OUTPUT_INFORMATION self = Some info"
    and "off_until_check self env ot = None"
    and "\<not> volume_requested self ot" and "\<not> pwm_requested self ot"
    and "\<not> duration_requested self ot (amount_or_0 req_amount)"
    and "\<not> on_requested info ot (amount_or_0 req_amount)"
    and "tc \<Longrightarrow> fst (check_triggers self env (amount_or_0 req_amount)) = Inr ()"
  shows "output_on_off self env state ot req_amount min_off tc =
           (Inr (0, EmptyMsg), self,
            if tc then CheckTriggers (amount_or_0 req_amount) #
                         snd (check_triggers self env (amount_or_0 req_amount))
            else [])"
proof -
  have "turn_on self env ot (amount_or_0 req_amount) min_off = (Continue EmptyMsg, self, [])"
    using assms(3,8) by (simp add: turn_on_rest[OF assms(4-7)])
  with assms(9) show ?thesis
    by (simp add: output_on_off_on[OF assms(1,2)] amount_or_0_def[symmetric]
        triggers_and_return_Continue)
qed

theorem C10_no_branch_witness:
  "output_on_off relay (env_at 0 False False) (StateStr ''on'') (Some ''vol'') (Some 3) 0 True =
     (Inr (0, EmptyMsg), relay, [CheckTriggers 3]) \<and>
   output_off_until relay_after_min_off = Some 65 \<and>
   output_on_off relay_after_min_off (env_at 70 False False) (StateStr ''on'') (Some ''on_off'')
       None 0 True =
     (Inr (0, EmptyMsg), relay_after_min_off, [CheckTriggers 0])"
proof -
  let ?info = "[''output_types'' \<mapsto> [''on_off'']]"
  have c: "\<And>self t a. check_triggers self (env_at t False False) a = (Inr (), [])"
    by (simp add: check_triggers_no_rules env_at_def)
  have s: "state_in_on (StateStr ''on'')" "is_setup (env_at 0 False False)"
    "is_setup (env_at 70 False False)"
    by (simp_all add: state_in_on_def env_at_def)
  have v: "OUTPUT_INFORMATION relay = Some ?info"
    "off_until_check relay (env_at 0 False False) (Some ''vol'') = None"
    "\<not> volume_requested relay (Some ''vol'')" "\<not> pwm_requested relay (Some ''vol'')"
    "\<not> duration_requested relay (Some ''vol'') (amount_or_0 (Some 3))"
    "\<not> on_requested ?info (Some ''vol'') (amount_or_0 (Some 3))"
    by (simp_all add: relay_defs off_until_check_def volume_requested_def pwm_requested_def
        duration_requested_def on_requested_def)
  have n: "OUTPUT_INFORMATION relay_after_min_off = Some ?info"
    "off_until_check relay_after_min_off (env_at 70 False False) (Some ''on_off'') = None"
    "\<not> volume_requested relay_after_min_off (Some ''on_off'')"
    "\<not> pwm_requested relay_after_min_off (Some ''on_off'')"
    "\<not> duration_requested relay_after_min_off (Some ''on_off'') (amount_or_0 None)"
    "\<not> on_requested ?info (Some ''on_off'') (amount_or_0 None)"
    by (simp_all add: relay_defs off_until_check_def volume_requested_def pwm_requested_def
        duration_requested_def on_requested_def)
  have 1: "output_on_off relay (env_at 0 False False) (StateStr ''on'') (Some ''vol'') (Some 3) 0 True =
     (Inr (0, EmptyMsg), relay, [CheckTriggers 3])"
    using C10_no_branch[OF s(1,2) v, of True 0] by (simp add: c amount_or_0_def)
  have 2: "output_on_off relay_after_min_off (env_at 70 False False) (StateStr ''on'')
       (Some ''on_off'') None 0 True =
     (Inr (0, EmptyMsg), relay_after_min_off, [CheckTriggers 0])"
    using C10_no_branch[OF s(1,3) n, of True 0] by (simp add: c amount_or_0_def)
  have "output_off_until relay_after_min_off = Some 65" by (simp add: relay_defs)
  with 1 2 show ?thesis by simp
qed

end
